theory Spec2Isabelle
  imports Complex_Main "HOL-Library.Multiset"
begin

section \<open>Python values used by the program\<close>

text \<open>
  Exceptions are values. \<open>ValueError\<close> is what \<open>np.dot\<close> raises on two one-dimensional
  arrays of different lengths, \<open>KeyError\<close> what \<open>dict.pop\<close> raises on a missing key,
  \<open>FileNotFoundError\<close> what \<open>np.load\<close> raises on a missing file and
  \<open>UnidentifiedImageError\<close> what \<open>Image.open\<close> raises on a file that is not an image.
\<close>

datatype error = ValueError | KeyError | FileNotFoundError | UnidentifiedImageError

text \<open>
  A Python \<open>dict\<close> keeps its keys in insertion order, and \<open>calc_similarities\<close> scans the
  index in that order, so a dict is an association list. \<open>d[k] = v\<close> replaces the value
  of a key that is present without moving it and appends a new key at the end;
  \<open>d.pop(k)\<close> raises on a missing key.
\<close>

type_synonym ('k, 'v) dict = "('k \<times> 'v) list"

definition dict_get :: "('k, 'v) dict \<Rightarrow> 'k \<Rightarrow> 'v option" where
  "dict_get d k = map_of d k"

definition dict_set :: "('k, 'v) dict \<Rightarrow> 'k \<Rightarrow> 'v \<Rightarrow> ('k, 'v) dict" where
  "dict_set d k v =
     (if k \<in> fst ` set d
      then map (\<lambda>(k', v'). if k' = k then (k', v) else (k', v')) d
      else d @ [(k, v)])"

definition dict_pop :: "('k, 'v) dict \<Rightarrow> 'k \<Rightarrow> error + ('k, 'v) dict" where
  "dict_pop d k =
     (if k \<in> fst ` set d then Inr (filter (\<lambda>(k', v'). k' \<noteq> k) d) else Inl KeyError)"

text \<open>
  Floating-point numbers are real numbers, together with the two special values that
  exact arithmetic reaches in \<open>calc_similarity\<close>: \<open>NaN\<close> (from \<open>0 / 0\<close>) and \<open>PInf\<close>
  (from \<open>1 / 0\<close>). Rounding, overflow and underflow are outside the model. Every
  comparison with \<open>NaN\<close> is false; \<open>None\<close> and \<open>0.0\<close> are the falsy values of an
  \<open>Optional[float]\<close>.
\<close>

datatype npfloat = Num real | PInf | NaN

fun float_lt :: "npfloat \<Rightarrow> npfloat \<Rightarrow> bool" where
  "float_lt (Num x) (Num y) = (x < y)"
| "float_lt (Num x) PInf = True"
| "float_lt _ _ = False"

fun float_ge :: "npfloat \<Rightarrow> npfloat \<Rightarrow> bool" where
  "float_ge (Num x) (Num y) = (y \<le> x)"
| "float_ge PInf (Num y) = True"
| "float_ge PInf PInf = True"
| "float_ge _ _ = False"

fun truthy :: "npfloat option \<Rightarrow> bool" where
  "truthy None = False"
| "truthy (Some (Num x)) = (x \<noteq> 0)"
| "truthy (Some _) = True"

fun isfinite :: "npfloat \<Rightarrow> bool" where
  "isfinite (Num x) = True"
| "isfinite _ = False"

text \<open>
  \<open>xs[:n]\<close>: a negative bound counts from the end of the list.
\<close>

definition slice_to :: "int \<Rightarrow> 'a list \<Rightarrow> 'a list" where
  "slice_to n xs = (if 0 \<le> n then take (nat n) xs else take (length xs - nat (- n)) xs)"


section \<open>finder/processing/similarity.py\<close>

text \<open>
  A feature vector is a one-dimensional \<open>np.ndarray\<close>. \<open>np.dot\<close> of two such arrays is
  the sum of the products, \<open>np.linalg.norm\<close> the square root of the sum of the squares.
\<close>

type_synonym ndarray = "real list"

definition np_dot :: "ndarray \<Rightarrow> ndarray \<Rightarrow> real" where
  "np_dot a b = sum_list (map2 (*) a b)"

definition np_norm :: "ndarray \<Rightarrow> real" where
  "np_norm a = sqrt (sum_list (map (\<lambda>x. x * x) a))"

text \<open>
  \<open>calc_similarity\<close>. \<open>np.dot\<close> raises on a length mismatch before anything else is
  computed. When the product of the norms is zero, one of the vectors is all zeros, the
  dot product is zero too, and \<open>0 / 0\<close> is \<open>NaN\<close> (numpy warns and goes on); \<open>NaN\<close>
  then propagates through \<open>1 - _\<close>, \<open>exp\<close>, \<open>+\<close> and \<open>/ 2\<close>. When
  \<open>1 + euclidean_penalty_factor * euclidean_distance\<close> is zero, \<open>1 / 0\<close> is \<open>inf\<close>, and
  so is half of its sum with the finite cosine term. The number of the last branch is
  the one of exact arithmetic: the code rounds every operation, so its score differs
  from it in the last digits (and can be a little above 1 for a vector with itself),
  and an overflow of the squares gives \<open>nan\<close>. No theorem below depends on the size of
  that number: the theorems about the scan take the scores as they come, and the one
  about an all-zero query uses the \<open>NaN\<close> of \<open>0 / 0\<close> only. The concrete inputs are
  evaluated in exact arithmetic.
\<close>

definition calc_similarity :: "ndarray \<Rightarrow> ndarray \<Rightarrow> real \<Rightarrow> real \<Rightarrow> error + npfloat" where
  "calc_similarity vector1 vector2 cosine_penalty_factor euclidean_penalty_factor =
     (if length vector1 \<noteq> length vector2 then Inl ValueError
      else
        let norms = np_norm vector1 * np_norm vector2;
            euclidean_distance = np_norm (map2 (-) vector1 vector2);
            denominator = 1 + euclidean_penalty_factor * euclidean_distance
        in
          if norms = 0 then Inr NaN
          else if denominator = 0 then Inr PInf
          else
            let cosine_sim = np_dot vector1 vector2 / norms;
                cosine_distance = 1 - cosine_sim;
                adjusted_cosine_similarity = exp (- cosine_penalty_factor * cosine_distance);
                adjusted_euclidean_similarity = 1 / denominator;
                combined_similarity =
                  (adjusted_cosine_similarity + adjusted_euclidean_similarity) / 2
            in Inr (Num combined_similarity))"

text \<open>
  \<open>comparison_results.sort(key=lambda x: x[1], reverse=True)\<close>: the stable sort by
  descending score, which compares keys with \<open><\<close> only. Entries whose keys do not
  compare (as all keys do not when they are all \<open>NaN\<close>) keep their order. Where \<open>NaN\<close>
  keys are mixed with numbers the comparisons are not an order, and the list that
  CPython's merge sort leaves is not the one of this insertion sort: the function is
  the sort of the code only on keys that are all numbers (or infinite) or all \<open>NaN\<close>.
  Every statement below about the order of a result has the hypothesis that no score
  is \<open>NaN\<close>, or is about a list whose scores all are.
\<close>

fun insort_reverse :: "('a \<times> npfloat) \<Rightarrow> ('a \<times> npfloat) list \<Rightarrow> ('a \<times> npfloat) list" where
  "insort_reverse x [] = [x]"
| "insort_reverse x (y # ys) =
     (if float_lt (snd x) (snd y) then y # insort_reverse x ys else x # y # ys)"

definition sort_reverse :: "('a \<times> npfloat) list \<Rightarrow> ('a \<times> npfloat) list" where
  "sort_reverse xs = foldr insort_reverse xs []"

text \<open>
  \<open>calc_similarities\<close>: the loop over \<open>vectors.items()\<close>. \<open>min_similarity and
  similarity < min_similarity\<close> is false when \<open>min_similarity\<close> is \<open>None\<close> or zero, and
  likewise for \<open>max_similarity\<close>. The early \<open>return\<close> leaves the loop with the single
  entry; the end of the loop sorts what was accumulated.
\<close>

fun calc_similarities_loop ::
  "ndarray \<Rightarrow> (string, ndarray) dict \<Rightarrow> npfloat option \<Rightarrow> npfloat option \<Rightarrow> real \<Rightarrow> real \<Rightarrow>
   (string \<times> npfloat) list \<Rightarrow> error + (string \<times> npfloat) list" where
  "calc_similarities_loop reference_vector [] min_similarity max_similarity
     cosine_penalty_factor euclidean_penalty_factor comparison_results =
     Inr (sort_reverse comparison_results)"
| "calc_similarities_loop reference_vector ((path, vector) # rest) min_similarity max_similarity
     cosine_penalty_factor euclidean_penalty_factor comparison_results =
     (case calc_similarity reference_vector vector cosine_penalty_factor euclidean_penalty_factor of
        Inl e \<Rightarrow> Inl e
      | Inr similarity \<Rightarrow>
          if truthy min_similarity \<and> float_lt similarity (the min_similarity) then
            calc_similarities_loop reference_vector rest min_similarity max_similarity
              cosine_penalty_factor euclidean_penalty_factor comparison_results
          else if truthy max_similarity \<and> float_ge similarity (the max_similarity) then
            Inr [(path, similarity)]
          else
            calc_similarities_loop reference_vector rest min_similarity max_similarity
              cosine_penalty_factor euclidean_penalty_factor
              (comparison_results @ [(path, similarity)]))"

definition calc_similarities ::
  "ndarray \<Rightarrow> (string, ndarray) dict \<Rightarrow> npfloat option \<Rightarrow> npfloat option \<Rightarrow> real \<Rightarrow> real \<Rightarrow>
   error + (string \<times> npfloat) list" where
  "calc_similarities reference_vector vectors min_similarity max_similarity
     cosine_penalty_factor euclidean_penalty_factor =
     calc_similarities_loop reference_vector vectors min_similarity max_similarity
       cosine_penalty_factor euclidean_penalty_factor []"


section \<open>finder/utils/utils.py\<close>

text \<open>
  A directory is the list of its files, in the order \<open>iterdir\<close> yields them, each with
  its content; only regular files are modelled. \<open>Path.suffix\<close> and \<open>Path.stem\<close> split
  a file name at its last dot, unless that dot is the first or the last character.
\<close>

type_synonym 'c directory = "(string, 'c) dict"

definition rfind_dot :: "string \<Rightarrow> int" where
  "rfind_dot name =
     (if CHR ''.'' \<in> set name
      then int (length name) - 1 - int (length (takeWhile (\<lambda>c. c \<noteq> CHR ''.'') (rev name)))
      else - 1)"

definition path_suffix :: "string \<Rightarrow> string" where
  "path_suffix name =
     (let i = rfind_dot name
      in if 0 < i \<and> i < int (length name) - 1 then drop (nat i) name else [])"

definition path_stem :: "string \<Rightarrow> string" where
  "path_stem name =
     (let i = rfind_dot name
      in if 0 < i \<and> i < int (length name) - 1 then take (nat i) name else name)"

text \<open>\<open>Path.with_suffix\<close> replaces the suffix of the name, or adds one when there is none.\<close>

definition with_suffix :: "string \<Rightarrow> string \<Rightarrow> string" where
  "with_suffix name suffix = path_stem name @ suffix"

definition image_extensions :: "string list" where
  "image_extensions = [''png'', ''jpg'', ''jpeg'']"

definition list_files :: "'c directory \<Rightarrow> string list \<Rightarrow> string list" where
  "list_files directory extensions =
     (let normalized_extensions =
            map (\<lambda>ext. if take 1 ext = ''.'' then ext else ''.'' @ ext) extensions
      in filter (\<lambda>file. path_suffix file \<in> set normalized_extensions) (map fst directory))"

text \<open>
  \<open>extract_name_extension\<close> matches \<open>url\<close> against
  \<open>^<base>/image/([^/]+\.[a-zA-Z0-9]+)$\<close>, where \<open><base>\<close> is the escaped base URL
  without its trailing slashes. The group is a name without a slash whose last dot is
  neither its first nor its last character and is followed by letters and digits only.
  \<open>$\<close> also matches before a line feed that ends the string.
\<close>

definition rstrip_slash :: "string \<Rightarrow> string" where
  "rstrip_slash s = rev (dropWhile (\<lambda>c. c = CHR ''/'') (rev s))"

definition is_alnum :: "char \<Rightarrow> bool" where
  "is_alnum c \<longleftrightarrow>
     c \<in> set ''abcdefghijklmnopqrstuvwxyzABCDEFGHIJKLMNOPQRSTUVWXYZ0123456789''"

definition matches_name :: "string \<Rightarrow> bool" where
  "matches_name r =
     (let i = rfind_dot r
      in 0 < i \<and> i < int (length r) - 1 \<and> CHR ''/'' \<notin> set r \<and>
         list_all is_alnum (drop (nat i + 1) r))"

definition extract_name_extension :: "string \<Rightarrow> string \<Rightarrow> string option" where
  "extract_name_extension url base_url =
     (let pre = rstrip_slash base_url @ ''/image/'';
          rest = drop (length pre) url
      in if take (length pre) url \<noteq> pre then None
         else if matches_name rest then Some rest
         else if rest \<noteq> [] \<and> last rest = CHR 0x0A \<and> matches_name (butlast rest)
           then Some (butlast rest)
         else None)"


section \<open>finder/processing/loading.py\<close>

text \<open>
  What the program takes from its libraries and from the network is a record of
  functions: \<open>Image.open(path).convert("RGB")\<close> on the bytes of a file (\<open>None\<close> when it
  raises), the JPEG encoding of \<open>image.save\<close>, \<open>load_image_from_url\<close> (\<open>None\<close> when the
  request or the decoding raises), the feature extractor, and the hexadecimal SHA-256
  digest of \<open>image.tobytes()\<close>.
\<close>

record ('img, 'bytes) lib =
  image_open :: "'bytes \<Rightarrow> 'img option"
  save_jpeg :: "'img \<Rightarrow> 'bytes"
  load_image_from_url :: "string \<Rightarrow> 'img option"
  extract_features :: "'img \<Rightarrow> ndarray"
  image_hash :: "'img \<Rightarrow> string"

text \<open>
  The cache directory may be absent (\<open>None\<close>). \<open>np.save\<close> appends \<open>.npy\<close> to a file
  name that does not end with it, and creates or overwrites the file.
\<close>

definition dir_files :: "'c directory option \<Rightarrow> 'c directory" where
  "dir_files d = (case d of None \<Rightarrow> [] | Some files \<Rightarrow> files)"

definition mkdir :: "'c directory option \<Rightarrow> 'c directory option" where
  "mkdir d = Some (dir_files d)"

definition endswith :: "string \<Rightarrow> string \<Rightarrow> bool" where
  "endswith s t \<longleftrightarrow> length t \<le> length s \<and> drop (length s - length t) s = t"

definition np_save_name :: "string \<Rightarrow> string" where
  "np_save_name file = (if endswith file ''.npy'' then file else file @ ''.npy'')"

definition np_save :: "ndarray directory option \<Rightarrow> string \<Rightarrow> ndarray \<Rightarrow> ndarray directory option" where
  "np_save d file arr = Some (dict_set (dir_files d) (np_save_name file) arr)"

definition np_load :: "ndarray directory option \<Rightarrow> string \<Rightarrow> ndarray option" where
  "np_load d file = dict_get (dir_files d) file"

text \<open>
  \<open>cached_files\<close> is only looked up, so the dict comprehension is a map; a later file
  with the same stem replaces an earlier one.
\<close>

definition cached_files :: "ndarray directory option \<Rightarrow> (string \<rightharpoonup> string)" where
  "cached_files cache_dir =
     map_of (rev (map (\<lambda>file. (path_stem file, file))
       (case cache_dir of None \<Rightarrow> [] | Some files \<Rightarrow> list_files files [''npy''])))"

text \<open>
  The loop of \<open>load_features\<close> over \<open>image_files\<close>. It carries the \<open>features\<close> dict, the
  cache directory as it is on disk, and the names of the images \<open>extract_func\<close> has been
  called on. An exception ends the run.
\<close>

fun load_features_loop ::
  "('img, 'bytes) lib \<Rightarrow> 'bytes directory \<Rightarrow> (string \<rightharpoonup> string) \<Rightarrow> ('img \<Rightarrow> ndarray) \<Rightarrow> bool \<Rightarrow> bool \<Rightarrow>
   string list \<Rightarrow> (string, ndarray) dict \<Rightarrow> ndarray directory option \<Rightarrow> string list \<Rightarrow>
   error + ((string, ndarray) dict \<times> ndarray directory option \<times> string list)" where
  "load_features_loop lib images_dir cached extract_func save_cache load_cache
     [] features cache_dir calls = Inr (features, cache_dir, calls)"
| "load_features_loop lib images_dir cached extract_func save_cache load_cache
     (path # rest) features cache_dir calls =
     (if load_cache \<and> cached path \<noteq> None then
        (case np_load cache_dir (the (cached path)) of
           None \<Rightarrow> Inl FileNotFoundError
         | Some feats \<Rightarrow>
             load_features_loop lib images_dir cached extract_func save_cache load_cache
               rest (dict_set features path feats) cache_dir calls)
      else
        (case dict_get images_dir path of
           None \<Rightarrow> Inl FileNotFoundError
         | Some bytes \<Rightarrow>
            (case image_open lib bytes of
               None \<Rightarrow> Inl UnidentifiedImageError
             | Some img \<Rightarrow>
                 let feats = extract_func img in
                 load_features_loop lib images_dir cached extract_func save_cache load_cache
                   rest (dict_set features path feats)
                   (if save_cache then np_save (mkdir cache_dir) path feats else cache_dir)
                   (calls @ [path]))))"

definition load_features ::
  "('img, 'bytes) lib \<Rightarrow> 'bytes directory \<Rightarrow> ndarray directory option \<Rightarrow> ('img \<Rightarrow> ndarray) \<Rightarrow> bool \<Rightarrow> bool \<Rightarrow>
   error + ((string, ndarray) dict \<times> ndarray directory option \<times> string list)" where
  "load_features lib images_dir cache_dir extract_func save_cache load_cache =
     (let image_files = list_files images_dir image_extensions
      in load_features_loop lib images_dir (cached_files cache_dir) extract_func
           save_cache load_cache image_files [] cache_dir [])"


section \<open>server.py\<close>

text \<open>
  A \<open>datetime\<close> is a number of microseconds; the difference of two is a \<open>timedelta\<close>,
  and \<open>total_seconds\<close> divides it by \<open>10\<^sup>6\<close>.
\<close>

record 'img RequestCacheEntry =
  created :: int
  image_rgb :: 'img
  hash :: string
  features :: ndarray
  saved :: bool
  tweeted :: bool
  tweet_id :: "int option"

text \<open>
  The state of the server: the two directories on disk and the two global dicts. A key
  of \<open>images\<close> is a path in \<open>IMAGES_DIR\<close>, written as the name of the file.
\<close>

record ('img, 'bytes) state =
  IMAGES_DIR :: "'bytes directory"
  CACHE_DIR :: "ndarray directory option"
  images :: "(string, ndarray) dict"
  requests_cache :: "(string, 'img RequestCacheEntry) dict"

definition request_expire :: int where
  "request_expire = 3 * 60"

definition total_seconds :: "int \<Rightarrow> real" where
  "total_seconds delta = real_of_int delta / 1000000"

text \<open>
  What a handler answers: a JSON body with status 200, an \<open>HTTPException\<close> with its
  status code, or an exception that no handler catches.
\<close>

datatype response =
    JSONResponse_results string "(string \<times> npfloat) list"
  | JSONResponse_saved string
  | HTTPException_400
  | HTTPException_404
  | HTTPException_409 string
  | Unhandled error

text \<open>
  \<open>JSONResponse\<close> renders its content when it is constructed, with
  \<open>json.dumps(..., allow_nan=False)\<close>, which raises \<open>ValueError\<close> on \<open>nan\<close> and \<open>inf\<close>.
\<close>

definition json_results :: "string \<Rightarrow> (string \<times> npfloat) list \<Rightarrow> response" where
  "json_results request_id results =
     (if list_all (\<lambda>(url, similarity). isfinite similarity) results
      then JSONResponse_results request_id results
      else Unhandled ValueError)"

text \<open>
  \<open>find_image\<close>. The identifier that \<open>uuid.uuid1()\<close> returns and the time that
  \<open>datetime.now()\<close> returns are arguments. \<open>calc_similarities\<close> is called with its own
  defaults, but for \<open>max_similarity\<close>, which is the query parameter.
\<close>

definition find_image ::
  "('img, 'bytes) lib \<Rightarrow> string \<Rightarrow> string \<Rightarrow> int \<Rightarrow> string \<Rightarrow> int \<Rightarrow> npfloat option \<Rightarrow>
   ('img, 'bytes) state \<Rightarrow> response \<times> ('img, 'bytes) state" where
  "find_image lib base_url request_id now url max_results max_similarity s =
     (case extract_name_extension url base_url of
        Some file_name \<Rightarrow>
          if file_name \<notin> fst ` set (IMAGES_DIR s) then (HTTPException_404, s)
          else
            let image_url = base_url @ ''image/'' @ file_name
            in (json_results request_id [(image_url, Num 1)], s)
      | None \<Rightarrow>
          (case load_image_from_url lib url of
             None \<Rightarrow> (HTTPException_400, s)
           | Some img \<Rightarrow>
               let feats = extract_features lib img
               in (case calc_similarities feats (images s) (Some (Num (2 / 10))) max_similarity
                          4 (2 / 10) of
                     Inl e \<Rightarrow> (HTTPException_400, s)
                   | Inr ranked \<Rightarrow>
                       let results = slice_to max_results ranked;
                           is_exact_match =
                             (results \<noteq> [] \<and> float_ge (snd (hd results)) (Num (99 / 100)));
                           entry = \<lparr>created = now, image_rgb = img, hash = image_hash lib img,
                                    features = feats, saved = is_exact_match,
                                    tweeted = is_exact_match, tweet_id = None\<rparr>;
                           s' = s\<lparr>requests_cache := dict_set (requests_cache s) request_id entry\<rparr>
                       in (json_results request_id
                             (map (\<lambda>(path, similarity). (base_url @ ''image/'' @ path, similarity))
                                results),
                           s'))))"

text \<open>
  \<open>save_image\<close>. Both \<open>mkdir\<close> calls come before the test for a conflict; the images
  directory always exists. \<open>cache["saved"] = True\<close> changes the entry that the dict
  holds.
\<close>

definition save_image ::
  "('img, 'bytes) lib \<Rightarrow> string \<Rightarrow> string \<Rightarrow> ('img, 'bytes) state \<Rightarrow>
   response \<times> ('img, 'bytes) state" where
  "save_image lib base_url request_id s =
     (case dict_get (requests_cache s) request_id of
        None \<Rightarrow> (HTTPException_404, s)
      | Some cache \<Rightarrow>
          let save_path = with_suffix (hash cache) ''.jpeg'';
              features_save_path = with_suffix (hash cache) ''.jpeg.npy'';
              s1 = s\<lparr>CACHE_DIR := mkdir (CACHE_DIR s)\<rparr>;
              url = base_url @ ''image/'' @ save_path
          in if save_path \<in> fst ` set (IMAGES_DIR s1) \<and>
                features_save_path \<in> fst ` set (dir_files (CACHE_DIR s1))
             then (HTTPException_409 url, s1)
             else
               let img_bytes = save_jpeg lib (image_rgb cache);
                   s2 = s1\<lparr>IMAGES_DIR := dict_set (IMAGES_DIR s1) save_path img_bytes\<rparr>;
                   s3 = s2\<lparr>CACHE_DIR := np_save (CACHE_DIR s2) features_save_path (features cache)\<rparr>;
                   s4 = s3\<lparr>images := dict_set (images s3) save_path (features cache)\<rparr>;
                   cache' = cache\<lparr>saved := True\<rparr>;
                   s5 = s4\<lparr>requests_cache := dict_set (requests_cache s4) request_id cache'\<rparr>
               in if saved cache' \<and> tweeted cache' then
                    (case dict_pop (requests_cache s5) request_id of
                       Inl e \<Rightarrow> (Unhandled e, s5)
                     | Inr popped \<Rightarrow> (JSONResponse_saved url, s5\<lparr>requests_cache := popped\<rparr>))
                  else (JSONResponse_saved url, s5))"

text \<open>
  \<open>update_images\<close>: nothing happens when the index has as many entries as the images
  directory has image files; otherwise \<open>images\<close> becomes what \<open>load_features\<close> returns.
\<close>

definition update_images ::
  "('img, 'bytes) lib \<Rightarrow> ('img, 'bytes) state \<Rightarrow> error + ('img, 'bytes) state" where
  "update_images lib s =
     (if length (images s) = length (list_files (IMAGES_DIR s) image_extensions) then Inr s
      else
        (case load_features lib (IMAGES_DIR s) (CACHE_DIR s) (extract_features lib) True True of
           Inl e \<Rightarrow> Inl e
         | Inr (loaded, cache_dir, calls) \<Rightarrow> Inr (s\<lparr>images := loaded, CACHE_DIR := cache_dir\<rparr>)))"

text \<open>
  \<open>cleanup_expired_requests\<close>: the keys of the entries older than \<open>request_expire\<close>
  seconds are collected first and popped one by one afterwards.
\<close>

fun pop_keys :: "('k, 'v) dict \<Rightarrow> 'k list \<Rightarrow> error + ('k, 'v) dict" where
  "pop_keys d [] = Inr d"
| "pop_keys d (key # keys) =
     (case dict_pop d key of Inl e \<Rightarrow> Inl e | Inr d' \<Rightarrow> pop_keys d' keys)"

definition cleanup_expired_requests ::
  "int \<Rightarrow> ('img, 'bytes) state \<Rightarrow> error + ('img, 'bytes) state" where
  "cleanup_expired_requests now s =
     (let expired_keys =
            map fst (filter (\<lambda>(key, entry).
              total_seconds (now - created entry) > real_of_int request_expire) (requests_cache s))
      in case pop_keys (requests_cache s) expired_keys of
           Inl e \<Rightarrow> Inl e
         | Inr remaining \<Rightarrow> Inr (s\<lparr>requests_cache := remaining\<rparr>))"


section \<open>Concrete inputs\<close>

text \<open>
  A pending entry and a server state with no files, used to evaluate the handlers. The
  image type and the type of file contents are \<open>unit\<close> here.
\<close>

definition ex_entry :: "int \<Rightarrow> bool \<Rightarrow> bool \<Rightarrow> unit RequestCacheEntry" where
  "ex_entry t sv tw =
     \<lparr>created = t, image_rgb = (), hash = ''ab12'', features = [1], saved = sv, tweeted = tw,
      tweet_id = None\<rparr>"

definition ex_state :: "(string, unit RequestCacheEntry) dict \<Rightarrow> (unit, unit) state" where
  "ex_state rc = \<lparr>IMAGES_DIR = [], CACHE_DIR = Some [], images = [], requests_cache = rc\<rparr>"

text \<open>
  A library whose extractor maps every image to the vector \<open>[1]\<close>, and an index of
  three vectors whose scores against \<open>[1]\<close> are \<open>6/7\<close>, \<open>11/12\<close> and \<open>1\<close>.
\<close>

definition ex_lib :: "(unit, unit) lib" where
  "ex_lib = \<lparr>image_open = (\<lambda>b. Some ()), save_jpeg = (\<lambda>i. ()),
             load_image_from_url = (\<lambda>u. Some ()), extract_features = (\<lambda>i. [1]),
             image_hash = (\<lambda>i. ''ab12'')\<rparr>"

definition ex_index :: "(string, ndarray) dict" where
  "ex_index = [(''a.jpg'', [3]), (''b.jpg'', [2]), (''c.jpg'', [1])]"

text \<open>
  An images directory with two images and a file that is not an image.
\<close>

definition ex_images_dir :: "unit directory" where
  "ex_images_dir = [(''a.jpg'', ()), (''b.png'', ()), (''notes.txt'', ())]"


section \<open>The sweep of the pending requests\<close>

lemma pop_keys_filter:
  "distinct keys \<Longrightarrow> set keys \<subseteq> fst ` set d \<Longrightarrow>
   pop_keys d keys = Inr (filter (\<lambda>(k, v). k \<notin> set keys) d)"
proof (induction keys arbitrary: d)
  case Nil
  then show ?case by simp
next
  case (Cons key keys)
  have "set keys \<subseteq> fst ` set (filter (\<lambda>(k', v'). k' \<noteq> key) d)"
    using Cons.prems by force
  with Cons show ?case
    by (auto simp: dict_pop_def intro!: filter_cong)
qed

lemma expired_filter:
  assumes "distinct (map fst d)"
  shows "filter (\<lambda>(k, v). k \<notin> set (map fst (filter (\<lambda>(k, v). P v) d))) d =
         filter (\<lambda>(k, v). \<not> P v) d"
proof (rule filter_cong[OF refl])
  fix x assume x: "x \<in> set d"
  obtain k v where kv: "x = (k, v)" by (cases x)
  have "k \<in> fst ` set (filter (\<lambda>(k, v). P v) d) \<longleftrightarrow> P v"
  proof
    assume "k \<in> fst ` set (filter (\<lambda>(k, v). P v) d)"
    then obtain v' where "(k, v') \<in> set d" "P v'" by auto
    with assms x kv have "v' = v" by (meson eq_key_imp_eq_value)
    with \<open>P v'\<close> show "P v" by simp
  next
    assume "P v"
    with x kv show "k \<in> fst ` set (filter (\<lambda>(k, v). P v) d)" by force
  qed
  then show "(case x of (k, v) \<Rightarrow> k \<notin> set (map fst (filter (\<lambda>(k, v). P v) d))) =
             (case x of (k, v) \<Rightarrow> \<not> P v)"
    using kv by simp
qed

text \<open>
  With distinct keys, as a dict has them, no \<open>pop\<close> of the sweep raises, and what stays
  is exactly the entries that are not older than \<open>request_expire\<close> seconds.
\<close>

lemma cleanup_expired_requests_eq:
  assumes "distinct (map fst (requests_cache s))"
  shows "cleanup_expired_requests now s =
         Inr (s\<lparr>requests_cache :=
           filter (\<lambda>(key, entry).
               \<not> total_seconds (now - created entry) > real_of_int request_expire)
             (requests_cache s)\<rparr>)"
proof -
  let ?P = "\<lambda>entry. total_seconds (now - created entry) > real_of_int request_expire"
  let ?ks = "map fst (filter (\<lambda>(key, entry). ?P entry) (requests_cache s))"
  have d: "distinct ?ks" using assms by (simp add: distinct_map_filter)
  have sub: "set ?ks \<subseteq> fst ` set (requests_cache s)" by auto
  show ?thesis
    unfolding cleanup_expired_requests_def Let_def
    using pop_keys_filter[OF d sub] expired_filter[OF assms, of ?P]
    by simp
qed

lemma dict_get_filter_distinct:
  assumes "distinct (map fst d)" "dict_get d key = Some v"
  shows "dict_get (filter (\<lambda>(k, v). P v) d) key = (if P v then Some v else None)"
proof (cases "P v")
  case True
  have "(key, v) \<in> set (filter (\<lambda>(k, v). P v) d)"
    using assms(2) True by (auto simp: dict_get_def dest: map_of_SomeD)
  moreover have "distinct (map fst (filter (\<lambda>(k, v). P v) d))"
    using assms(1) by (simp add: distinct_map_filter)
  ultimately show ?thesis using True by (simp add: dict_get_def)
next
  case False
  have "key \<notin> fst ` set (filter (\<lambda>(k, v). P v) d)"
  proof
    assume "key \<in> fst ` set (filter (\<lambda>(k, v). P v) d)"
    then obtain v' where "(key, v') \<in> set d" "P v'" by auto
    moreover have "(key, v) \<in> set d"
      using assms(2) by (auto simp: dict_get_def dest: map_of_SomeD)
    ultimately have "v' = v" using assms(1) by (meson eq_key_imp_eq_value)
    with \<open>P v'\<close> False show False by simp
  qed
  then show ?thesis using False by (simp add: dict_get_def map_of_eq_None_iff)
qed

text \<open>
  C4, as the code has it. The sweep looks at the age of an entry only: an entry whose
  \<open>saved\<close> and \<open>tweeted\<close> flags are both set is removed by the sweep exactly when it is
  older than 180 seconds, and is kept by it otherwise.
\<close>

theorem cleanup_flagged_by_age_only:
  assumes "distinct (map fst (requests_cache s))"
    and "dict_get (requests_cache s) key = Some entry"
    and "saved entry" and "tweeted entry"
  shows "\<exists>s'. cleanup_expired_requests now s = Inr s' \<and>
           (dict_get (requests_cache s') key = None \<longleftrightarrow>
              total_seconds (now - created entry) > 180) \<and>
           (\<not> total_seconds (now - created entry) > 180 \<longrightarrow>
              dict_get (requests_cache s') key = Some entry)"
  using dict_get_filter_distinct[OF assms(1,2),
      of "\<lambda>entry. \<not> total_seconds (now - created entry) > real_of_int request_expire"]
  by (simp add: cleanup_expired_requests_eq[OF assms(1)] request_expire_def)

theorem cleanup_flagged_by_age_only_witness:
  "distinct (map fst (requests_cache (ex_state [(''r1'', ex_entry 0 True True)]))) \<and>
   dict_get (requests_cache (ex_state [(''r1'', ex_entry 0 True True)])) ''r1'' =
     Some (ex_entry 0 True True) \<and>
   saved (ex_entry 0 True True) \<and> tweeted (ex_entry 0 True True) \<and>
   (\<exists>s'. cleanup_expired_requests 60000000 (ex_state [(''r1'', ex_entry 0 True True)]) = Inr s' \<and>
         dict_get (requests_cache s') ''r1'' = Some (ex_entry 0 True True))"
proof -
  let ?s = "ex_state [(''r1'', ex_entry 0 True True)]"
  have d: "distinct (map fst (requests_cache ?s))" by (simp add: ex_state_def)
  have g: "dict_get (requests_cache ?s) ''r1'' = Some (ex_entry 0 True True)"
    by (simp add: ex_state_def dict_get_def)
  have f: "saved (ex_entry 0 True True)" "tweeted (ex_entry 0 True True)"
    by (simp_all add: ex_entry_def)
  have c: "created (ex_entry 0 True True) = 0" by (simp add: ex_entry_def)
  show ?thesis
    using d g f cleanup_flagged_by_age_only[OF d g f, of 60000000]
    by (auto simp add: c total_seconds_def)
qed

text \<open>
  C4, as the claim states it, fails: an entry with both flags set, created at time 0, is
  still in the cache after a sweep ten seconds later.
\<close>

theorem cleanup_flagged_counterexample:
  "cleanup_expired_requests 10000000 (ex_state [(''r1'', ex_entry 0 True True)]) =
     Inr (ex_state [(''r1'', ex_entry 0 True True)]) \<and>
   dict_get (requests_cache (ex_state [(''r1'', ex_entry 0 True True)])) ''r1'' =
     Some (ex_entry 0 True True) \<and>
   saved (ex_entry 0 True True) \<and> tweeted (ex_entry 0 True True)"
  by (simp add: cleanup_expired_requests_def ex_state_def ex_entry_def total_seconds_def
      request_expire_def dict_get_def)

text \<open>
  C5. Whatever its flags, an entry is removed by the sweep when its age is more than 180
  seconds and kept when its age is 180 seconds or less; the sweep itself never fails.
\<close>

theorem cleanup_ttl:
  assumes "distinct (map fst (requests_cache s))"
    and "dict_get (requests_cache s) key = Some entry"
  shows "\<exists>s'. cleanup_expired_requests now s = Inr s' \<and>
           dict_get (requests_cache s') key =
             (if total_seconds (now - created entry) > 180 then None else Some entry)"
  using dict_get_filter_distinct[OF assms,
      of "\<lambda>entry. \<not> total_seconds (now - created entry) > real_of_int request_expire"]
  by (simp add: cleanup_expired_requests_eq[OF assms(1)] request_expire_def)

text \<open>
  The entry of the witness is created at second 5; it is present after the sweep at
  second 184 (age 179) and absent after the sweep at second 186 (age 181).
\<close>

theorem cleanup_ttl_witness:
  "distinct (map fst (requests_cache (ex_state [(''r1'', ex_entry 5000000 False False)]))) \<and>
   dict_get (requests_cache (ex_state [(''r1'', ex_entry 5000000 False False)])) ''r1'' =
     Some (ex_entry 5000000 False False) \<and>
   (\<exists>s'. cleanup_expired_requests 184000000
           (ex_state [(''r1'', ex_entry 5000000 False False)]) = Inr s' \<and>
         dict_get (requests_cache s') ''r1'' = Some (ex_entry 5000000 False False)) \<and>
   (\<exists>s'. cleanup_expired_requests 186000000
           (ex_state [(''r1'', ex_entry 5000000 False False)]) = Inr s' \<and>
         dict_get (requests_cache s') ''r1'' = None)"
proof -
  let ?s = "ex_state [(''r1'', ex_entry 5000000 False False)]"
  have d: "distinct (map fst (requests_cache ?s))" by (simp add: ex_state_def)
  have g: "dict_get (requests_cache ?s) ''r1'' = Some (ex_entry 5000000 False False)"
    by (simp add: ex_state_def dict_get_def)
  have c: "created (ex_entry 5000000 False False) = 5000000" by (simp add: ex_entry_def)
  show ?thesis
    using d g cleanup_ttl[OF d g, of 184000000] cleanup_ttl[OF d g, of 186000000]
    by (simp add: c total_seconds_def)
qed


section \<open>Ranking\<close>

subsection \<open>The sort\<close>

lemma set_insort_reverse: "set (insort_reverse x ys) = insert x (set ys)"
  by (induction ys) auto

lemma set_sort_reverse: "set (sort_reverse xs) = set xs"
  by (induction xs) (auto simp: sort_reverse_def set_insort_reverse)

lemma length_insort_reverse: "length (insort_reverse x ys) = Suc (length ys)"
  by (induction ys) auto

lemma length_sort_reverse: "length (sort_reverse xs) = length xs"
  by (induction xs) (auto simp: sort_reverse_def length_insort_reverse)

lemma mset_insort_reverse: "mset (insort_reverse x ys) = add_mset x (mset ys)"
  by (induction ys) auto

lemma mset_sort_reverse: "mset (sort_reverse xs) = mset xs"
  by (induction xs) (auto simp: sort_reverse_def mset_insort_reverse)

lemma sort_reverse_Cons: "sort_reverse (x # xs) = insort_reverse x (sort_reverse xs)"
  by (simp add: sort_reverse_def)

lemma sort_reverse_Nil: "sort_reverse [] = []"
  by (simp add: sort_reverse_def)

lemma insort_reverse_NaN: "snd x = NaN \<Longrightarrow> insort_reverse x ys = x # ys"
  by (cases ys) auto

lemma sort_reverse_all_NaN: "\<forall>x\<in>set xs. snd x = NaN \<Longrightarrow> sort_reverse xs = xs"
  by (induction xs) (auto simp: sort_reverse_Cons sort_reverse_Nil insort_reverse_NaN)

lemma not_lt_ge: "a \<noteq> NaN \<Longrightarrow> b \<noteq> NaN \<Longrightarrow> \<not> float_lt a b \<Longrightarrow> float_ge a b"
  by (cases a; cases b) auto

lemma lt_ge: "float_lt a b \<Longrightarrow> float_ge b a"
  by (cases a; cases b) auto

lemma ge_trans: "float_ge a b \<Longrightarrow> float_ge b c \<Longrightarrow> float_ge a c"
  by (cases a; cases b; cases c) auto

lemma sorted_insort_reverse:
  "snd x \<noteq> NaN \<Longrightarrow> \<forall>y\<in>set ys. snd y \<noteq> NaN \<Longrightarrow>
   sorted_wrt (\<lambda>a b. float_ge (snd a) (snd b)) ys \<Longrightarrow>
   sorted_wrt (\<lambda>a b. float_ge (snd a) (snd b)) (insort_reverse x ys)"
proof (induction ys)
  case Nil
  then show ?case by simp
next
  case (Cons y ys)
  show ?case
  proof (cases "float_lt (snd x) (snd y)")
    case True
    then have "float_ge (snd y) (snd x)" by (rule lt_ge)
    with True Cons show ?thesis by (auto simp: set_insort_reverse)
  next
    case False
    then have xy: "float_ge (snd x) (snd y)" using Cons.prems by (auto intro: not_lt_ge)
    have "\<forall>z\<in>set ys. float_ge (snd x) (snd z)"
      using Cons.prems(3) xy by (auto intro: ge_trans)
    with False xy Cons.prems show ?thesis by auto
  qed
qed

lemma sorted_sort_reverse:
  "\<forall>x\<in>set xs. snd x \<noteq> NaN \<Longrightarrow> sorted_wrt (\<lambda>a b. float_ge (snd a) (snd b)) (sort_reverse xs)"
  by (induction xs)
     (auto simp: sort_reverse_Cons sort_reverse_Nil set_sort_reverse intro!: sorted_insort_reverse)

text \<open>
  When no vector of the index differs in length from the reference vector, every score
  is defined, and a scan whose \<open>max_similarity\<close> is falsy accumulates every entry that is
  not skipped.
\<close>

lemma calc_similarity_Inr:
  "length v = length r \<Longrightarrow> calc_similarity r v c e = Inr (projr (calc_similarity r v c e))"
  by (simp add: calc_similarity_def Let_def)

lemma loop_no_early_exit:
  assumes "\<not> truthy mx" and "\<forall>(p, v)\<in>set vs. length v = length r"
  shows "calc_similarities_loop r vs mn mx c e acc =
         Inr (sort_reverse (acc @ filter (\<lambda>(p, sim). \<not> (truthy mn \<and> float_lt sim (the mn)))
                (map (\<lambda>(p, v). (p, projr (calc_similarity r v c e))) vs)))"
  using assms(2)
proof (induction vs arbitrary: acc)
  case Nil
  then show ?case by simp
next
  case (Cons pv vs)
  obtain p v where pv: "pv = (p, v)" by (cases pv)
  have len: "length v = length r" using Cons.prems pv by simp
  have ih: "\<And>acc. calc_similarities_loop r vs mn mx c e acc =
         Inr (sort_reverse (acc @ filter (\<lambda>(p, sim). \<not> (truthy mn \<and> float_lt sim (the mn)))
                (map (\<lambda>(p, v). (p, projr (calc_similarity r v c e))) vs)))"
    using Cons by simp
  show ?case
    unfolding pv
    by (subst calc_similarities_loop.simps, subst calc_similarity_Inr[OF len])
       (simp add: ih assms(1))
qed

lemma loop_min_zero:
  "calc_similarities_loop r vs (Some (Num 0)) mx c e acc = calc_similarities_loop r vs None mx c e acc"
  by (induction vs arbitrary: acc) (auto split: sum.splits)

subsection \<open>The score\<close>

lemma sum_squares_nonneg: "0 \<le> sum_list (map (\<lambda>x. x * x) (a :: real list))"
  by (induction a) auto

lemma sum_squares_zero_iff: "sum_list (map (\<lambda>x. x * x) (a :: real list)) = 0 \<longleftrightarrow> (\<forall>x\<in>set a. x = 0)"
proof (induction a)
  case Nil
  then show ?case by simp
next
  case (Cons x a)
  have "x * x + sum_list (map (\<lambda>x. x * x) a) = 0 \<longleftrightarrow> x * x = 0 \<and> sum_list (map (\<lambda>x. x * x) a) = 0"
    using sum_squares_nonneg[of a] zero_le_square[of x] by (simp add: add_nonneg_eq_0_iff)
  with Cons show ?case by simp
qed

lemma np_norm_zero_iff: "np_norm a = 0 \<longleftrightarrow> (\<forall>x\<in>set a. x = 0)"
  by (simp add: np_norm_def sum_squares_zero_iff)

lemma np_norm_single: "np_norm [x] = \<bar>x\<bar>"
  by (simp add: np_norm_def)

lemma np_dot_single: "np_dot [x] [y] = x * y"
  by (simp add: np_dot_def)

subsection \<open>The scan\<close>

lemma loop_early_exit:
  assumes "truthy mx" and "calc_similarity r v c e = Inr sim" and "float_ge sim (the mx)"
    and "\<not> (truthy mn \<and> float_lt sim (the mn))"
    and "\<forall>(q, w)\<in>set pre. \<exists>t. calc_similarity r w c e = Inr t \<and>
           ((truthy mn \<and> float_lt t (the mn)) \<or> \<not> float_ge t (the mx))"
  shows "calc_similarities_loop r (pre @ (p, v) # post) mn mx c e acc = Inr [(p, sim)]"
  using assms(5)
proof (induction pre arbitrary: acc)
  case Nil
  show ?case using assms(1-4) by auto
next
  case (Cons qw pre)
  obtain q w where qw: "qw = (q, w)" by (cases qw)
  obtain t where t: "calc_similarity r w c e = Inr t"
    "(truthy mn \<and> float_lt t (the mn)) \<or> \<not> float_ge t (the mx)"
    using Cons.prems qw by auto
  have ih: "\<And>acc. calc_similarities_loop r (pre @ (p, v) # post) mn mx c e acc = Inr [(p, sim)]"
    using Cons by simp
  show ?case unfolding qw using t(2) by (auto simp add: t(1) ih)
qed

lemma loop_results:
  assumes "calc_similarities_loop r vs mn mx c e acc = Inr res"
    and "\<forall>x\<in>set acc. Q x"
    and "\<forall>(q, w)\<in>set vs. \<forall>t. calc_similarity r w c e = Inr t \<longrightarrow>
           \<not> (truthy mn \<and> float_lt t (the mn)) \<longrightarrow> Q (q, t)"
  shows "\<forall>x\<in>set res. Q x"
  using assms
proof (induction vs arbitrary: acc)
  case Nil
  then show ?case by (auto simp: set_sort_reverse)
next
  case (Cons qw vs)
  obtain q w where qw: "qw = (q, w)" by (cases qw)
  from Cons.prems(1) obtain t where t: "calc_similarity r w c e = Inr t"
    unfolding qw by (auto split: sum.splits)
  have rest: "\<forall>(q, w)\<in>set vs. \<forall>t. calc_similarity r w c e = Inr t \<longrightarrow>
           \<not> (truthy mn \<and> float_lt t (the mn)) \<longrightarrow> Q (q, t)"
    using Cons.prems(3) by simp
  show ?case
  proof (cases "truthy mn \<and> float_lt t (the mn)")
    case True
    then have "calc_similarities_loop r vs mn mx c e acc = Inr res"
      using Cons.prems(1) unfolding qw by (simp add: t)
    then show ?thesis using Cons.IH Cons.prems(2) rest by blast
  next
    case False
    then have Qt: "Q (q, t)" using Cons.prems(3) t qw by auto
    show ?thesis
    proof (cases "truthy mx \<and> float_ge t (the mx)")
      case True
      then have "res = [(q, t)]" using Cons.prems(1) False unfolding qw by (simp add: t)
      then show ?thesis using Qt by simp
    next
      case nomax: False
      then have "calc_similarities_loop r vs mn mx c e (acc @ [(q, t)]) = Inr res"
        using Cons.prems(1) False unfolding qw by (auto simp add: t)
      moreover have "\<forall>x\<in>set (acc @ [(q, t)]). Q x" using Cons.prems(2) Qt by simp
      ultimately show ?thesis using Cons.IH rest by blast
    qed
  qed
qed

text \<open>
  C1. With a truthy \<open>max_similarity\<close>, the first entry of the scan that is not skipped
  and whose score is at least \<open>max_similarity\<close> ends the scan: it alone is returned,
  whatever was accumulated before it and whatever follows it (the entries after it are
  not even scored). The test against \<open>min_similarity\<close> comes first, so the entries
  before it are those that are skipped or score below \<open>max_similarity\<close>. And with a
  truthy \<open>min_similarity\<close>, every entry of every result is an entry of the index with
  its score, and that score is not below \<open>min_similarity\<close>.
\<close>

theorem early_exit_first_match:
  assumes "truthy mx"
    and "calc_similarity r vector c e = Inr sim"
    and "\<not> (truthy mn \<and> float_lt sim (the mn))"
    and "float_ge sim (the mx)"
    and "\<forall>(q, w)\<in>set pre. \<exists>t. calc_similarity r w c e = Inr t \<and>
           ((truthy mn \<and> float_lt t (the mn)) \<or> \<not> float_ge t (the mx))"
  shows "calc_similarities r (pre @ (path, vector) # post) mn mx c e = Inr [(path, sim)] \<and>
         (\<forall>vs mxo res. truthy mn \<longrightarrow> calc_similarities r vs mn mxo c e = Inr res \<longrightarrow>
            (\<forall>(q, t)\<in>set res. \<not> float_lt t (the mn) \<and>
               (\<exists>w. (q, w) \<in> set vs \<and> calc_similarity r w c e = Inr t)))"
proof (intro conjI allI impI)
  show "calc_similarities r (pre @ (path, vector) # post) mn mx c e = Inr [(path, sim)]"
    unfolding calc_similarities_def
    using assms by (intro loop_early_exit) auto
next
  fix vs :: "(string, ndarray) dict" and mxo res
  assume mn: "truthy mn"
    and res: "calc_similarities r vs mn mxo c e = Inr res"
  let ?Q = "\<lambda>(q, t). \<not> float_lt t (the mn) \<and>
              (\<exists>w. (q, w) \<in> set vs \<and> calc_similarity r w c e = Inr t)"
  have "\<forall>x\<in>set res. ?Q x"
  proof (rule loop_results[where Q = ?Q])
    show "calc_similarities_loop r vs mn mxo c e [] = Inr res"
      using res by (simp add: calc_similarities_def)
    show "\<forall>x\<in>set []. ?Q x" by simp
    show "\<forall>(q, w)\<in>set vs. \<forall>t. calc_similarity r w c e = Inr t \<longrightarrow>
           \<not> (truthy mn \<and> float_lt t (the mn)) \<longrightarrow> ?Q (q, t)"
      using mn by auto
  qed
  then show "\<forall>(q, t)\<in>set res. \<not> float_lt t (the mn) \<and>
               (\<exists>w. (q, w) \<in> set vs \<and> calc_similarity r w c e = Inr t)"
    by simp
qed

lemma calc_similarity_single:
  "x \<noteq> 0 \<Longrightarrow> y \<noteq> 0 \<Longrightarrow> 1 + e * \<bar>x - y\<bar> \<noteq> 0 \<Longrightarrow>
   calc_similarity [x] [y] c e =
     Inr (Num ((exp (- c * (1 - x * y / (\<bar>x\<bar> * \<bar>y\<bar>))) + 1 / (1 + e * \<bar>x - y\<bar>)) / 2))"
  by (simp add: calc_similarity_def np_norm_single np_dot_single Let_def)

lemma ex_scores:
  "calc_similarity [1] [3] 4 (2 / 10) = Inr (Num (6 / 7))"
  "calc_similarity [1] [2] 4 (2 / 10) = Inr (Num (11 / 12))"
  "calc_similarity [1] [1] 4 (2 / 10) = Inr (Num 1)"
  by (simp_all add: calc_similarity_single)

text \<open>
  The witness is the index of three vectors: the first scores \<open>6/7\<close> and is
  accumulated, the second scores \<open>11/12\<close>, which is at least \<open>0.9\<close>, and is the sole
  result, although the third would score \<open>1\<close>.
\<close>

theorem early_exit_first_match_witness:
  "truthy (Some (Num (9 / 10))) \<and>
   calc_similarity [1] [3] 4 (2 / 10) = Inr (Num (6 / 7)) \<and>
   calc_similarity [1] [2] 4 (2 / 10) = Inr (Num (11 / 12)) \<and>
   calc_similarity [1] [1] 4 (2 / 10) = Inr (Num 1) \<and>
   calc_similarities [1] [(''a.jpg'', [3]), (''b.jpg'', [2]), (''c.jpg'', [1])]
     (Some (Num (2 / 10))) (Some (Num (9 / 10))) 4 (2 / 10) = Inr [(''b.jpg'', Num (11 / 12))]"
proof -
  have m: "truthy (Some (Num (9 / 10)))" by simp
  have s: "calc_similarity [1] [2] 4 (2 / 10) = Inr (Num (11 / 12))" by (rule ex_scores)
  have n: "\<not> (truthy (Some (Num (2 / 10))) \<and> float_lt (Num (11 / 12)) (the (Some (Num (2 / 10)))))"
    by simp
  have g: "float_ge (Num (11 / 12)) (the (Some (Num (9 / 10))))" by simp
  have p: "\<forall>(q, w)\<in>set [(''a.jpg'', [3::real])].
             \<exists>t. calc_similarity [1] w 4 (2 / 10) = Inr t \<and>
               ((truthy (Some (Num (2 / 10))) \<and> float_lt t (the (Some (Num (2 / 10))))) \<or>
                \<not> float_ge t (the (Some (Num (9 / 10)))))"
    using ex_scores(1) by simp
  show ?thesis
    using early_exit_first_match[OF m s n g p, of "''b.jpg''" "[(''c.jpg'', [1])]"] ex_scores
    by simp
qed

lemma calc_similarity_zero_reference:
  "\<forall>x\<in>set r. x = 0 \<Longrightarrow> length v = length r \<Longrightarrow> calc_similarity r v c e = Inr NaN"
  using np_norm_zero_iff[of r] by (simp add: calc_similarity_def Let_def)

lemma loop_zero_reference:
  assumes "\<forall>x\<in>set r. x = 0" and "\<forall>(p, v)\<in>set vs. length v = length r"
  shows "calc_similarities_loop r vs mn mx c e acc =
         Inr (sort_reverse (acc @ map (\<lambda>(p, v). (p, NaN)) vs))"
  using assms(2)
proof (induction vs arbitrary: acc)
  case Nil
  then show ?case by simp
next
  case (Cons pv vs)
  obtain p v where pv: "pv = (p, v)" by (cases pv)
  have "calc_similarity r v c e = Inr NaN"
    using Cons.prems pv assms(1) by (intro calc_similarity_zero_reference) auto
  moreover have "\<And>acc. calc_similarities_loop r vs mn mx c e acc =
         Inr (sort_reverse (acc @ map (\<lambda>(p, v). (p, NaN)) vs))"
    using Cons by simp
  ultimately show ?case unfolding pv by simp
qed

text \<open>
  C3, as the code has it. A query with an all-zero reference vector does not fail: the
  score of every vector of the same length is \<open>NaN\<close>, no comparison with \<open>NaN\<close> holds,
  so no entry is skipped and none ends the scan, and the result is the whole index in
  insertion order, every entry with the score \<open>NaN\<close>, whatever the two thresholds are.
\<close>

theorem zero_query_all_NaN:
  assumes "\<forall>x\<in>set r. x = 0" and "\<forall>(p, v)\<in>set vs. length v = length r"
  shows "calc_similarities r vs mn mx c e = Inr (map (\<lambda>(p, v). (p, NaN)) vs)"
proof -
  have "sort_reverse (map (\<lambda>(p, v). (p, NaN)) vs) = map (\<lambda>(p, v). (p, NaN)) vs"
    by (rule sort_reverse_all_NaN) auto
  then show ?thesis
    unfolding calc_similarities_def by (simp add: loop_zero_reference[OF assms])
qed

theorem zero_query_all_NaN_witness:
  "list_all (\<lambda>x. x = 0) [0 :: real] \<and>
   list_all (\<lambda>(p, v). length v = length [0 :: real]) ex_index \<and>
   calc_similarities [0] ex_index (Some (Num (2 / 10))) None 4 (2 / 10) =
     Inr [(''a.jpg'', NaN), (''b.jpg'', NaN), (''c.jpg'', NaN)]"
  using zero_query_all_NaN[of "[0]" ex_index "Some (Num (2 / 10))" None 4 "2 / 10"]
  by (simp add: ex_index_def)

text \<open>
  C3, as the claim states it, fails: with the default thresholds, the all-zero query
  \<open>[0, 0]\<close> against an index that holds \<open>[1, 2]\<close> returns that entry with the score
  \<open>NaN\<close>, and no error.
\<close>

theorem zero_query_counterexample:
  "calc_similarities [0, 0] [(''a.jpg'', [1, 2])] (Some (Num (2 / 10))) (Some (Num (9 / 10)))
     4 (2 / 10) = Inr [(''a.jpg'', NaN)]"
  by (simp add: calc_similarities_def calc_similarity_def np_norm_def sort_reverse_def)

lemma calc_similarities_no_max:
  assumes "\<not> truthy mx" and "\<forall>(p, v)\<in>set vs. length v = length r"
  shows "calc_similarities r vs mn mx c e =
         Inr (sort_reverse (filter (\<lambda>(p, sim). \<not> (truthy mn \<and> float_lt sim (the mn)))
                (map (\<lambda>(p, v). (p, projr (calc_similarity r v c e))) vs)))"
  unfolding calc_similarities_def using loop_no_early_exit[OF assms, of mn c e "[]"] by simp

lemma scores_not_NaN:
  assumes "\<forall>(p, v)\<in>set vs. length v = length r \<and> calc_similarity r v c e \<noteq> Inr NaN"
  shows "\<forall>x\<in>set (filter P (map (\<lambda>(p, v). (p, projr (calc_similarity r v c e))) vs)).
           snd x \<noteq> NaN"
proof
  fix x assume "x \<in> set (filter P (map (\<lambda>(p, v). (p, projr (calc_similarity r v c e))) vs))"
  then obtain p v where pv: "(p, v) \<in> set vs" and x: "x = (p, projr (calc_similarity r v c e))"
    by auto
  have "length v = length r" "calc_similarity r v c e \<noteq> Inr NaN" using assms pv by auto
  then show "snd x \<noteq> NaN" using calc_similarity_Inr[of v r c e] x by auto
qed

text \<open>
  C9. When \<open>find_image\<close> is called without \<open>max_similarity\<close> (\<open>None\<close>), or with
  \<open>max_similarity = 0\<close>, on a URL that is not one of the server's own and whose image
  loads, and every vector of the index has the length of the query's features and a
  score that is not \<open>NaN\<close>, the scan stops at no entry and the results are: every entry
  of the index with its score, those with a score below \<open>0.2\<close> left out, sorted by
  descending score, cut to \<open>max_results\<close>. The sorted list is in descending order and
  is a permutation of the entries that were accumulated. The same holds for
  \<open>calc_similarities\<close> with any falsy \<open>max_similarity\<close>, where a falsy \<open>min_similarity\<close>
  leaves no entry out, and \<open>min_similarity = 0\<close> behaves as \<open>None\<close> does.
\<close>

theorem find_image_without_max_similarity:
  assumes "extract_name_extension url base_url = None"
    and "load_image_from_url lib url = Some img"
    and "\<forall>(p, v)\<in>set (images s). length v = length (extract_features lib img) \<and>
           calc_similarity (extract_features lib img) v 4 (2 / 10) \<noteq> Inr NaN"
    and "max_similarity = None \<or> max_similarity = Some (Num 0)"
  shows "(let accumulated =
            filter (\<lambda>(p, sim). \<not> float_lt sim (Num (2 / 10)))
              (map (\<lambda>(p, v). (p, projr (calc_similarity (extract_features lib img) v 4 (2 / 10))))
                 (images s))
          in fst (find_image lib base_url request_id now url max_results max_similarity s) =
               json_results request_id
                 (map (\<lambda>(path, similarity). (base_url @ ''image/'' @ path, similarity))
                    (slice_to max_results (sort_reverse accumulated))) \<and>
             sorted_wrt (\<lambda>a b. float_ge (snd a) (snd b)) (sort_reverse accumulated) \<and>
             mset (sort_reverse accumulated) = mset accumulated) \<and>
         (\<forall>r vs mn mx c e. \<not> truthy mx \<longrightarrow>
            (\<forall>(p, v)\<in>set vs. length v = length r \<and> calc_similarity r v c e \<noteq> Inr NaN) \<longrightarrow>
            (let accumulated =
               filter (\<lambda>(p, sim). \<not> (truthy mn \<and> float_lt sim (the mn)))
                 (map (\<lambda>(p, v). (p, projr (calc_similarity r v c e))) vs)
             in calc_similarities r vs mn mx c e = Inr (sort_reverse accumulated) \<and>
                sorted_wrt (\<lambda>a b. float_ge (snd a) (snd b)) (sort_reverse accumulated) \<and>
                mset (sort_reverse accumulated) = mset accumulated)) \<and>
         (\<forall>r vs mx c e. calc_similarities r vs (Some (Num 0)) mx c e =
            calc_similarities r vs None mx c e)"
proof (intro conjI allI impI)
  let ?acc = "filter (\<lambda>(p, sim). \<not> float_lt sim (Num (2 / 10)))
              (map (\<lambda>(p, v). (p, projr (calc_similarity (extract_features lib img) v 4 (2 / 10))))
                 (images s))"
  have mx: "\<not> truthy max_similarity" using assms(4) by auto
  have len: "\<forall>(p, v)\<in>set (images s). length v = length (extract_features lib img)"
    using assms(3) by auto
  have "calc_similarities (extract_features lib img) (images s) (Some (Num (2 / 10))) max_similarity
          4 (2 / 10) = Inr (sort_reverse ?acc)"
    using calc_similarities_no_max[OF mx len, of "Some (Num (2 / 10))" 4 "2 / 10"] by simp
  then have res: "fst (find_image lib base_url request_id now url max_results max_similarity s) =
           json_results request_id
             (map (\<lambda>(path, similarity). (base_url @ ''image/'' @ path, similarity))
               (slice_to max_results (sort_reverse ?acc)))"
    by (simp add: find_image_def assms(1,2) Let_def)
  have "\<forall>x\<in>set ?acc. snd x \<noteq> NaN" using assms(3) by (rule scores_not_NaN)
  then have "sorted_wrt (\<lambda>a b. float_ge (snd a) (snd b)) (sort_reverse ?acc)"
    by (rule sorted_sort_reverse)
  with res show "let accumulated = ?acc
          in fst (find_image lib base_url request_id now url max_results max_similarity s) =
               json_results request_id
                 (map (\<lambda>(path, similarity). (base_url @ ''image/'' @ path, similarity))
                    (slice_to max_results (sort_reverse accumulated))) \<and>
             sorted_wrt (\<lambda>a b. float_ge (snd a) (snd b)) (sort_reverse accumulated) \<and>
             mset (sort_reverse accumulated) = mset accumulated"
    by (simp add: Let_def mset_sort_reverse)
next
  fix r :: ndarray and vs :: "(string, ndarray) dict" and mn mx c e
  assume mx: "\<not> truthy mx"
    and ok: "\<forall>(p, v)\<in>set vs. length v = length r \<and> calc_similarity r v c e \<noteq> Inr NaN"
  let ?acc = "filter (\<lambda>(p, sim). \<not> (truthy mn \<and> float_lt sim (the mn)))
                 (map (\<lambda>(p, v). (p, projr (calc_similarity r v c e))) vs)"
  have len: "\<forall>(p, v)\<in>set vs. length v = length r" using ok by auto
  have res: "calc_similarities r vs mn mx c e = Inr (sort_reverse ?acc)"
    using mx len by (rule calc_similarities_no_max)
  have "\<forall>x\<in>set ?acc. snd x \<noteq> NaN" using ok by (rule scores_not_NaN)
  then have "sorted_wrt (\<lambda>a b. float_ge (snd a) (snd b)) (sort_reverse ?acc)"
    by (rule sorted_sort_reverse)
  with res show "let accumulated = ?acc
             in calc_similarities r vs mn mx c e = Inr (sort_reverse accumulated) \<and>
                sorted_wrt (\<lambda>a b. float_ge (snd a) (snd b)) (sort_reverse accumulated) \<and>
                mset (sort_reverse accumulated) = mset accumulated"
    by (simp add: Let_def mset_sort_reverse)
next
  fix r vs mx c e
  show "calc_similarities r vs (Some (Num 0)) mx c e = calc_similarities r vs None mx c e"
    by (simp add: calc_similarities_def loop_min_zero)
qed

lemma ex_no_match: "extract_name_extension ''http://o/q.png'' ''http://h/'' = None"
  by (simp add: extract_name_extension_def rstrip_slash_def)

text \<open>
  The witness is the index of three vectors again, which a scan with
  \<open>max_similarity = 0.9\<close> leaves at its second entry: without \<open>max_similarity\<close> the scan
  does not stop there, and the two best of the three entries are returned, best first.
\<close>

theorem find_image_without_max_similarity_witness:
  "extract_name_extension ''http://o/q.png'' ''http://h/'' = None \<and>
   load_image_from_url ex_lib ''http://o/q.png'' = Some () \<and>
   list_all (\<lambda>(p, v). length v = length (extract_features ex_lib ()) \<and>
       calc_similarity (extract_features ex_lib ()) v 4 (2 / 10) \<noteq> Inr NaN)
     (images ((ex_state [])\<lparr>images := ex_index\<rparr>)) \<and>
   fst (find_image ex_lib ''http://h/'' ''id1'' 0 ''http://o/q.png'' 2 None
          ((ex_state [])\<lparr>images := ex_index\<rparr>)) =
     JSONResponse_results ''id1''
       [(''http://h/image/c.jpg'', Num 1), (''http://h/image/b.jpg'', Num (11 / 12))]"
proof -
  let ?s = "(ex_state [])\<lparr>images := ex_index\<rparr>"
  have a: "extract_name_extension ''http://o/q.png'' ''http://h/'' = None" by (rule ex_no_match)
  have b: "load_image_from_url ex_lib ''http://o/q.png'' = Some ()" by (simp add: ex_lib_def)
  have f: "extract_features ex_lib () = [1]" by (simp add: ex_lib_def)
  have i: "images ?s = ex_index" by simp
  have c: "\<forall>(p, v)\<in>set (images ?s). length v = length (extract_features ex_lib ()) \<and>
      calc_similarity (extract_features ex_lib ()) v 4 (2 / 10) \<noteq> Inr NaN"
    unfolding f i using ex_scores by (simp add: ex_index_def)
  have th: "fst (find_image ex_lib ''http://h/'' ''id1'' 0 ''http://o/q.png'' 2 None ?s) =
           json_results ''id1''
             (map (\<lambda>(path, similarity). (''http://h/'' @ ''image/'' @ path, similarity))
               (slice_to 2
                 (sort_reverse
                   (filter (\<lambda>(p, sim). \<not> float_lt sim (Num (2 / 10)))
                     (map (\<lambda>(p, v). (p, projr (calc_similarity (extract_features ex_lib ()) v 4 (2 / 10))))
                        (images ?s))))))"
    using find_image_without_max_similarity[OF a b c, of None "''id1''" 0 2]
    unfolding Let_def by blast
  have sc: "map (\<lambda>(p, v). (p, projr (calc_similarity [1] v 4 (2 / 10)))) ex_index =
        [(''a.jpg'', Num (6 / 7)), (''b.jpg'', Num (11 / 12)), (''c.jpg'', Num 1)]"
    using ex_scores by (simp add: ex_index_def)
  have "fst (find_image ex_lib ''http://h/'' ''id1'' 0 ''http://o/q.png'' 2 None ?s) =
     JSONResponse_results ''id1''
       [(''http://h/image/c.jpg'', Num 1), (''http://h/image/b.jpg'', Num (11 / 12))]"
    unfolding th f i sc by (simp add: sort_reverse_def slice_to_def json_results_def)
  moreover have "list_all (\<lambda>(p, v). length v = length (extract_features ex_lib ()) \<and>
       calc_similarity (extract_features ex_lib ()) v 4 (2 / 10) \<noteq> Inr NaN) (images ?s)"
    using c by (simp add: list_all_iff)
  ultimately show ?thesis using a b by blast
qed


section \<open>Loading the features\<close>

subsection \<open>File names\<close>

lemma rfind_dot_npy: "rfind_dot (name @ ''.npy'') = int (length name)"
  by (simp add: rfind_dot_def)

lemma path_stem_npy: "name \<noteq> [] \<Longrightarrow> path_stem (name @ ''.npy'') = name"
  by (simp add: path_stem_def rfind_dot_npy)

lemma path_suffix_npy: "name \<noteq> [] \<Longrightarrow> path_suffix (name @ ''.npy'') = ''.npy''"
  by (simp add: path_suffix_def rfind_dot_npy)

lemma path_suffix_npy_empty: "path_suffix ''.npy'' = []"
  by (simp add: path_suffix_def rfind_dot_def)

lemma stem_suffix: "path_suffix f \<noteq> [] \<Longrightarrow> path_stem f @ path_suffix f = f"
  by (auto simp: path_suffix_def path_stem_def Let_def split: if_splits)

lemma endswithD: "endswith s t \<Longrightarrow> \<exists>x. s = x @ t"
  unfolding endswith_def by (metis append_take_drop_id)

lemma image_name_not_npy:
  assumes "path_suffix n \<in> set [''.png'', ''.jpg'', ''.jpeg'']"
  shows "n \<noteq> [] \<and> \<not> endswith n ''.npy''"
proof
  have "path_suffix [] = []" by (simp add: path_suffix_def rfind_dot_def)
  then show "n \<noteq> []" using assms by auto
  show "\<not> endswith n ''.npy''"
  proof
    assume "endswith n ''.npy''"
    then obtain x where x: "n = x @ ''.npy''" using endswithD by blast
    have "path_suffix n = ''.npy'' \<or> path_suffix n = []"
      unfolding x using path_suffix_npy[of x] path_suffix_npy_empty by (cases "x = []") auto
    with assms show False by auto
  qed
qed

lemma list_files_images:
  "set (list_files d image_extensions) =
     {n \<in> fst ` set d. path_suffix n \<in> set [''.png'', ''.jpg'', ''.jpeg'']}"
  by (auto simp: list_files_def image_extensions_def)

lemma list_files_npy:
  "set (list_files d [''npy'']) = {f \<in> fst ` set d. path_suffix f = ''.npy''}"
  by (auto simp: list_files_def)

lemma distinct_list_files: "distinct (map fst d) \<Longrightarrow> distinct (list_files d exts)"
  by (simp add: list_files_def Let_def)

subsection \<open>The cache directory\<close>

lemma dict_get_dict_set:
  "dict_get (dict_set d k v) k' = (if k' = k then Some v else dict_get d k')"
proof (cases "k \<in> fst ` set d")
  case False
  then have "map_of d k = None" by (simp add: map_of_eq_None_iff)
  with False show ?thesis
    by (auto simp: dict_get_def dict_set_def map_add_def split: option.splits)
next
  case True
  have "map_of (map (\<lambda>(a, b). if a = k then (a, v) else (a, b)) d) k' =
        (if k' = k then map_option (\<lambda>b. v) (map_of d k) else map_of d k')"
    by (induction d) auto
  moreover have "map_of d k \<noteq> None" using True by (simp only: map_of_eq_None_iff not_not)
  ultimately show ?thesis using True by (auto simp add: dict_get_def dict_set_def)
qed

lemma np_load_np_save:
  "np_load (np_save (mkdir c) p v) f = (if f = np_save_name p then Some v else np_load c f)"
  by (simp add: np_load_def np_save_def mkdir_def dir_files_def dict_get_dict_set)

lemma np_load_Some_iff: "np_load c f \<noteq> None \<longleftrightarrow> f \<in> fst ` set (dir_files c)"
  unfolding np_load_def dict_get_def using map_of_eq_None_iff[of "dir_files c" f] by auto

lemma cached_files_SomeD:
  assumes "cached_files c n = Some f"
  shows "f = n @ ''.npy'' \<and> np_load c f \<noteq> None"
proof -
  let ?L = "case c of None \<Rightarrow> [] | Some files \<Rightarrow> list_files files [''npy'']"
  have "(n, f) \<in> set (rev (map (\<lambda>file. (path_stem file, file)) ?L))"
    using assms unfolding cached_files_def by (rule map_of_SomeD)
  then have f: "f \<in> set ?L" and st: "path_stem f = n" by auto
  from f have sfx: "path_suffix f = ''.npy''" and mem: "f \<in> fst ` set (dir_files c)"
    by (auto simp: list_files_npy dir_files_def split: option.splits)
  have "path_stem f @ path_suffix f = f" by (rule stem_suffix) (simp add: sfx)
  then have "f = n @ ''.npy''" using st sfx by simp
  moreover have "np_load c f \<noteq> None" using mem by (simp only: np_load_Some_iff)
  ultimately show ?thesis by blast
qed

lemma cached_files_present:
  assumes "n \<noteq> []" and "np_load c (n @ ''.npy'') \<noteq> None"
  shows "cached_files c n = Some (n @ ''.npy'')"
proof -
  let ?L = "case c of None \<Rightarrow> [] | Some files \<Rightarrow> list_files files [''npy'']"
  have "n @ ''.npy'' \<in> fst ` set (dir_files c)" using assms(2) by (simp only: np_load_Some_iff)
  then have "n @ ''.npy'' \<in> set ?L"
    using path_suffix_npy[OF assms(1)]
    by (auto simp: list_files_npy dir_files_def split: option.splits)
  then have "(n, n @ ''.npy'') \<in> set (rev (map (\<lambda>file. (path_stem file, file)) ?L))"
    using path_stem_npy[OF assms(1)] by force
  then have "n \<in> fst ` set (rev (map (\<lambda>file. (path_stem file, file)) ?L))" by force
  then have "cached_files c n \<noteq> None"
    unfolding cached_files_def by (simp only: map_of_eq_None_iff not_not)
  then obtain f where f: "cached_files c n = Some f" by auto
  with cached_files_SomeD[OF f] show ?thesis by simp
qed

subsection \<open>The loop\<close>

text \<open>
  A run of the loop writes only the cache files of the images it finds no cached file
  for; every other file of the cache directory keeps its content.
\<close>

lemma loop_keeps_files:
  assumes "load_features_loop lib idir cached ex True True xs F C calls = Inr (F', C', calls')"
    and "f \<notin> np_save_name ` {n \<in> set xs. cached n = None}"
  shows "np_load C' f = np_load C f"
  using assms
proof (induction xs arbitrary: F C calls)
  case Nil
  then show ?case by simp
next
  case (Cons path rest)
  have notin: "f \<notin> np_save_name ` {n \<in> set rest. cached n = None}"
    using Cons.prems(2) by auto
  show ?case
  proof (cases "cached path")
    case (Some cf)
    with Cons.prems(1) obtain feats where
      "load_features_loop lib idir cached ex True True rest (dict_set F path feats) C calls =
         Inr (F', C', calls')"
      by (auto split: option.splits)
    then show ?thesis using Cons.IH notin by blast
  next
    case None
    with Cons.prems(1) obtain feats where
      "load_features_loop lib idir cached ex True True rest (dict_set F path feats)
         (np_save (mkdir C) path feats) (calls @ [path]) = Inr (F', C', calls')"
      by (auto simp: Let_def split: option.splits)
    then have "np_load C' f = np_load (np_save (mkdir C) path feats) f"
      using Cons.IH notin by blast
    moreover have "f \<noteq> np_save_name path" using Cons.prems(2) None by auto
    ultimately show ?thesis by (simp add: np_load_np_save)
  qed
qed

text \<open>
  After a run that returns, every image has its cache file, and the features returned
  are the ones a run would get by loading every image from the cache directory as the
  run left it.
\<close>

lemma first_run:
  assumes "load_features_loop lib idir cached ex True True xs F C calls = Inr (F', C', calls')"
    and "distinct xs"
    and "\<forall>n\<in>set xs. n \<noteq> [] \<and> \<not> endswith n ''.npy''"
    and "\<forall>n f. cached n = Some f \<longrightarrow> f = n @ ''.npy''"
  shows "(\<forall>n\<in>set xs. np_load C' (n @ ''.npy'') \<noteq> None) \<and>
         F' = foldl (\<lambda>F n. dict_set F n (the (np_load C' (n @ ''.npy'')))) F xs"
  using assms(1,2,3)
proof (induction xs arbitrary: F C calls)
  case Nil
  then show ?case by simp
next
  case (Cons path rest)
  have rest: "distinct rest" "\<forall>n\<in>set rest. n \<noteq> [] \<and> \<not> endswith n ''.npy''"
    and path: "path \<notin> set rest" "path \<noteq> []" "\<not> endswith path ''.npy''"
    using Cons.prems(2,3) by auto
  have unwritten: "path @ ''.npy'' \<notin> np_save_name ` {n \<in> set rest. cached n = None}"
  proof
    assume "path @ ''.npy'' \<in> np_save_name ` {n \<in> set rest. cached n = None}"
    then obtain n where n: "n \<in> set rest" "path @ ''.npy'' = np_save_name n" by auto
    then have "np_save_name n = n @ ''.npy''" using rest(2) by (simp add: np_save_name_def)
    with n path(1) show False by simp
  qed
  show ?case
  proof (cases "cached path")
    case (Some cf)
    then have cf: "cf = path @ ''.npy''" using assms(4) by simp
    from Some Cons.prems(1) obtain feats where
      feats: "np_load C (path @ ''.npy'') = Some feats"
      and run: "load_features_loop lib idir cached ex True True rest (dict_set F path feats) C calls =
         Inr (F', C', calls')"
      unfolding cf by (auto split: option.splits)
    have keep: "np_load C' (path @ ''.npy'') = Some feats"
      using loop_keeps_files[OF run unwritten] feats by simp
    from Cons.IH[OF run rest] keep show ?thesis by simp
  next
    case None
    with Cons.prems(1) obtain feats where
      run: "load_features_loop lib idir cached ex True True rest (dict_set F path feats)
         (np_save (mkdir C) path feats) (calls @ [path]) = Inr (F', C', calls')"
      by (auto simp: Let_def split: option.splits)
    have "np_save_name path = path @ ''.npy''" using path(3) by (simp add: np_save_name_def)
    then have "np_load (np_save (mkdir C) path feats) (path @ ''.npy'') = Some feats"
      by (simp add: np_load_np_save)
    then have keep: "np_load C' (path @ ''.npy'') = Some feats"
      using loop_keeps_files[OF run unwritten] by simp
    from Cons.IH[OF run rest] keep show ?thesis by simp
  qed
qed

text \<open>
  When every image has its cache file, the run loads them all: it writes nothing and
  calls \<open>extract_func\<close> on nothing.
\<close>

lemma second_run:
  assumes "\<forall>n\<in>set xs. cached n = Some (n @ ''.npy'') \<and> np_load C (n @ ''.npy'') \<noteq> None"
  shows "load_features_loop lib idir cached ex True True xs F C calls =
         Inr (foldl (\<lambda>F n. dict_set F n (the (np_load C (n @ ''.npy'')))) F xs, C, calls)"
  using assms by (induction xs arbitrary: F) auto

text \<open>
  C7. When a run of \<open>load_features\<close> (with \<open>save_cache\<close> and \<open>load_cache\<close> set, as by
  default) on an images directory has returned, a second run on the same images
  directory and on the cache directory as the first run left it returns the same
  mapping, in the same order, leaves the cache directory as it is, and calls
  \<open>extract_func\<close> zero times. The file names of a directory are distinct.
\<close>

theorem load_features_idempotent:
  assumes "distinct (map fst images_dir)"
    and "load_features lib images_dir cache_dir extract_func True True =
           Inr (features1, cache_dir1, calls1)"
  shows "load_features lib images_dir cache_dir1 extract_func True True =
           Inr (features1, cache_dir1, [])"
proof -
  let ?xs = "list_files images_dir image_extensions"
  have run1: "load_features_loop lib images_dir (cached_files cache_dir) extract_func True True
      ?xs [] cache_dir [] = Inr (features1, cache_dir1, calls1)"
    using assms(2) by (simp add: load_features_def)
  have d: "distinct ?xs" using assms(1) by (rule distinct_list_files)
  have names: "\<forall>n\<in>set ?xs. n \<noteq> [] \<and> \<not> endswith n ''.npy''"
    using image_name_not_npy by (auto simp: list_files_images)
  have cached: "\<forall>n f. cached_files cache_dir n = Some f \<longrightarrow> f = n @ ''.npy''"
    using cached_files_SomeD by blast
  from first_run[OF run1 d names cached]
  have present: "\<forall>n\<in>set ?xs. np_load cache_dir1 (n @ ''.npy'') \<noteq> None"
    and f1: "features1 =
      foldl (\<lambda>F n. dict_set F n (the (np_load cache_dir1 (n @ ''.npy'')))) [] ?xs"
    by blast+
  have "\<forall>n\<in>set ?xs. cached_files cache_dir1 n = Some (n @ ''.npy'') \<and>
          np_load cache_dir1 (n @ ''.npy'') \<noteq> None"
    using present names cached_files_present by blast
  from second_run[OF this, of lib images_dir extract_func "[]" "[]"] f1
  show ?thesis by (simp add: load_features_def)
qed

lemma ex_list_files: "list_files ex_images_dir image_extensions = [''a.jpg'', ''b.png'']"
  by (simp add: list_files_def image_extensions_def ex_images_dir_def path_suffix_def
      rfind_dot_def)

lemma ex_cached_1:
  "cached_files (Some [(''a.jpg.npy'', [7])]) ''a.jpg'' = Some ''a.jpg.npy''"
  "cached_files (Some [(''a.jpg.npy'', [7])]) ''b.png'' = None"
  by (simp_all add: cached_files_def list_files_def path_suffix_def path_stem_def rfind_dot_def)

lemma ex_first_run:
  "load_features ex_lib ex_images_dir (Some [(''a.jpg.npy'', [7])]) (extract_features ex_lib)
     True True =
   Inr ([(''a.jpg'', [7]), (''b.png'', [1])],
        Some [(''a.jpg.npy'', [7]), (''b.png.npy'', [1])], [''b.png''])"
  unfolding load_features_def Let_def ex_list_files
  by (simp add: ex_cached_1 np_load_def np_save_def mkdir_def dir_files_def dict_get_def
      dict_set_def np_save_name_def endswith_def ex_lib_def ex_images_dir_def Let_def)

text \<open>
  In the witness the first run finds the cached features of \<open>a.jpg\<close> and extracts those
  of \<open>b.png\<close>; the second run extracts nothing.
\<close>

theorem load_features_idempotent_witness:
  "distinct (map fst ex_images_dir) \<and>
   load_features ex_lib ex_images_dir (Some [(''a.jpg.npy'', [7])]) (extract_features ex_lib)
     True True =
     Inr ([(''a.jpg'', [7]), (''b.png'', [1])],
          Some [(''a.jpg.npy'', [7]), (''b.png.npy'', [1])], [''b.png'']) \<and>
   load_features ex_lib ex_images_dir (Some [(''a.jpg.npy'', [7]), (''b.png.npy'', [1])])
     (extract_features ex_lib) True True =
     Inr ([(''a.jpg'', [7]), (''b.png'', [1])],
          Some [(''a.jpg.npy'', [7]), (''b.png.npy'', [1])], [])"
proof -
  have d: "distinct (map fst ex_images_dir)" by (simp add: ex_images_dir_def)
  show ?thesis
    using d ex_first_run load_features_idempotent[OF d ex_first_run] by blast
qed


section \<open>The handlers and the reconciliation\<close>

lemma keys_dict_set: "fst ` set (dict_set d k v) = insert k (fst ` set d)"
  by (auto simp: dict_set_def image_iff split: if_splits prod.splits) force+

lemma dict_pop_present: "k \<in> fst ` set d \<Longrightarrow> \<exists>d'. dict_pop d k = Inr d'"
  by (simp add: dict_pop_def)

lemma endswith_append: "endswith (x @ t) t"
  by (simp add: endswith_def)

lemma endswith_npy: "endswith (x @ ''.jpeg.npy'') ''.npy''"
  by (simp add: endswith_def)

lemma np_save_name_features: "np_save_name (with_suffix h ''.jpeg.npy'') = with_suffix h ''.jpeg.npy''"
  unfolding np_save_name_def with_suffix_def using endswith_npy by simp

lemma save_image_found:
  assumes "dict_get (requests_cache s) request_id = Some cache"
  shows "fst (save_image lib base_url request_id s) =
           (if with_suffix (hash cache) ''.jpeg'' \<in> fst ` set (IMAGES_DIR s) \<and>
               with_suffix (hash cache) ''.jpeg.npy'' \<in> fst ` set (dir_files (CACHE_DIR s))
            then HTTPException_409 (base_url @ ''image/'' @ with_suffix (hash cache) ''.jpeg'')
            else JSONResponse_saved (base_url @ ''image/'' @ with_suffix (hash cache) ''.jpeg''))"
proof -
  have "\<exists>d'. dict_pop (dict_set (requests_cache s) request_id (cache\<lparr>saved := True\<rparr>)) request_id = Inr d'"
    by (rule dict_pop_present) (simp add: keys_dict_set)
  then obtain d' where "dict_pop (dict_set (requests_cache s) request_id (cache\<lparr>saved := True\<rparr>)) request_id = Inr d'" ..
  then show ?thesis
    by (simp add: save_image_def assms Let_def mkdir_def dir_files_def)
qed

lemma save_image_files:
  assumes "dict_get (requests_cache s) request_id = Some cache"
    and "\<not> (with_suffix (hash cache) ''.jpeg'' \<in> fst ` set (IMAGES_DIR s) \<and>
               with_suffix (hash cache) ''.jpeg.npy'' \<in> fst ` set (dir_files (CACHE_DIR s)))"
  shows "with_suffix (hash cache) ''.jpeg'' \<in> fst ` set (IMAGES_DIR (snd (save_image lib base_url request_id s))) \<and>
         with_suffix (hash cache) ''.jpeg.npy'' \<in>
            fst ` set (dir_files (CACHE_DIR (snd (save_image lib base_url request_id s))))"
proof -
  have "\<exists>d'. dict_pop (dict_set (requests_cache s) request_id (cache\<lparr>saved := True\<rparr>)) request_id = Inr d'"
    by (rule dict_pop_present) (simp add: keys_dict_set)
  then obtain d' where "dict_pop (dict_set (requests_cache s) request_id (cache\<lparr>saved := True\<rparr>)) request_id = Inr d'" ..
  then show ?thesis
    using assms(2)
    by (auto simp add: save_image_def assms(1) Let_def mkdir_def dir_files_def np_save_def
        np_save_name_features keys_dict_set)
qed

lemma ex_stem: "path_stem ''ab12'' = ''ab12''"
  by (simp add: path_stem_def rfind_dot_def)

lemma ex_suffix_jpg: "path_suffix ''new.jpg'' = ''.jpg''"
  by (simp add: path_suffix_def rfind_dot_def)

lemma ex_own_url: "extract_name_extension ''http://h/image/a.jpg'' ''http://h/'' = Some ''a.jpg''"
  by (simp add: extract_name_extension_def rstrip_slash_def matches_name_def rfind_dot_def
      is_alnum_def)

text \<open>
  C6. When \<open>save_image\<close> finds the pending entry of the request, it answers 409
  Conflict exactly when the image file \<open><hash>.jpeg\<close> and the features file
  \<open><hash>.jpeg.npy\<close> both exist, and answers 200 otherwise. So when the two files do
  not both exist, the commit succeeds, and a second commit that finds a pending entry
  with the same hash (the same request again, or another request for the same image)
  is answered 409 Conflict.
\<close>

theorem save_image_conflict:
  assumes "dict_get (requests_cache s) request_id = Some cache"
  shows "fst (save_image lib base_url request_id s) =
           (if with_suffix (hash cache) ''.jpeg'' \<in> fst ` set (IMAGES_DIR s) \<and>
               with_suffix (hash cache) ''.jpeg.npy'' \<in> fst ` set (dir_files (CACHE_DIR s))
            then HTTPException_409 (base_url @ ''image/'' @ with_suffix (hash cache) ''.jpeg'')
            else JSONResponse_saved (base_url @ ''image/'' @ with_suffix (hash cache) ''.jpeg'')) \<and>
         (\<forall>request_id2 cache2.
            \<not> (with_suffix (hash cache) ''.jpeg'' \<in> fst ` set (IMAGES_DIR s) \<and>
               with_suffix (hash cache) ''.jpeg.npy'' \<in> fst ` set (dir_files (CACHE_DIR s))) \<longrightarrow>
            dict_get (requests_cache (snd (save_image lib base_url request_id s))) request_id2 =
              Some cache2 \<longrightarrow>
            hash cache2 = hash cache \<longrightarrow>
            fst (save_image lib base_url request_id s) =
              JSONResponse_saved (base_url @ ''image/'' @ with_suffix (hash cache) ''.jpeg'') \<and>
            fst (save_image lib base_url request_id2 (snd (save_image lib base_url request_id s))) =
              HTTPException_409 (base_url @ ''image/'' @ with_suffix (hash cache) ''.jpeg''))"
proof (intro conjI allI impI)
  show "fst (save_image lib base_url request_id s) =
           (if with_suffix (hash cache) ''.jpeg'' \<in> fst ` set (IMAGES_DIR s) \<and>
               with_suffix (hash cache) ''.jpeg.npy'' \<in> fst ` set (dir_files (CACHE_DIR s))
            then HTTPException_409 (base_url @ ''image/'' @ with_suffix (hash cache) ''.jpeg'')
            else JSONResponse_saved (base_url @ ''image/'' @ with_suffix (hash cache) ''.jpeg''))"
    by (rule save_image_found[OF assms])
next
  fix request_id2 cache2
  assume fresh: "\<not> (with_suffix (hash cache) ''.jpeg'' \<in> fst ` set (IMAGES_DIR s) \<and>
               with_suffix (hash cache) ''.jpeg.npy'' \<in> fst ` set (dir_files (CACHE_DIR s)))"
    and found2: "dict_get (requests_cache (snd (save_image lib base_url request_id s))) request_id2 =
              Some cache2"
    and h: "hash cache2 = hash cache"
  show "fst (save_image lib base_url request_id s) =
              JSONResponse_saved (base_url @ ''image/'' @ with_suffix (hash cache) ''.jpeg'')"
    using save_image_found[OF assms, of lib base_url] fresh by simp
  show "fst (save_image lib base_url request_id2 (snd (save_image lib base_url request_id s))) =
              HTTPException_409 (base_url @ ''image/'' @ with_suffix (hash cache) ''.jpeg'')"
    using save_image_found[OF found2, of lib base_url] save_image_files[OF assms fresh, of lib base_url] h
    by simp
qed

text \<open>
  The witness commits the request \<open>r1\<close> twice, starting with empty directories.
\<close>

theorem save_image_conflict_witness:
  "dict_get (requests_cache (ex_state [(''r1'', ex_entry 0 False False)])) ''r1'' =
     Some (ex_entry 0 False False) \<and>
   fst (save_image ex_lib ''http://h/'' ''r1'' (ex_state [(''r1'', ex_entry 0 False False)])) =
     JSONResponse_saved ''http://h/image/ab12.jpeg'' \<and>
   fst (save_image ex_lib ''http://h/'' ''r1''
         (snd (save_image ex_lib ''http://h/'' ''r1''
                 (ex_state [(''r1'', ex_entry 0 False False)])))) =
     HTTPException_409 ''http://h/image/ab12.jpeg''"
proof -
  let ?s = "ex_state [(''r1'', ex_entry 0 False False)]"
  let ?e = "ex_entry 0 False False"
  have g: "dict_get (requests_cache ?s) ''r1'' = Some ?e"
    by (simp add: ex_state_def dict_get_def)
  have h: "hash ?e = ''ab12''" by (simp add: ex_entry_def)
  have w: "with_suffix ''ab12'' ''.jpeg'' = ''ab12.jpeg''"
    by (simp add: with_suffix_def ex_stem)
  have fresh: "\<not> (with_suffix (hash ?e) ''.jpeg'' \<in> fst ` set (IMAGES_DIR ?s) \<and>
      with_suffix (hash ?e) ''.jpeg.npy'' \<in> fst ` set (dir_files (CACHE_DIR ?s)))"
    by (simp add: ex_state_def)
  have g2: "dict_get (requests_cache (snd (save_image ex_lib ''http://h/'' ''r1'' ?s))) ''r1'' =
      Some (?e\<lparr>saved := True\<rparr>)"
    by (simp add: save_image_def ex_state_def ex_entry_def dict_get_def dict_set_def Let_def
        mkdir_def dir_files_def)
  have h2: "hash (?e\<lparr>saved := True\<rparr>) = hash ?e" by simp
  show ?thesis
    using g save_image_conflict[OF g, of ex_lib "''http://h/''"] fresh g2 h2
    by (simp add: h w)
qed

text \<open>
  C10. When the URL matches the server's own image pattern and the named file exists,
  \<open>find_image\<close> answers with the single result of similarity 1.0 and leaves the state
  as it was: nothing is stored under the request identifier, which \<open>uuid1\<close> makes a
  fresh one, and \<open>save_image\<close> with that identifier answers 404 Not Found.
\<close>

theorem find_image_own_url:
  assumes "extract_name_extension url base_url = Some file_name"
    and "file_name \<in> fst ` set (IMAGES_DIR s)"
    and "dict_get (requests_cache s) request_id = None"
  shows "find_image lib base_url request_id now url max_results max_similarity s =
           (JSONResponse_results request_id [(base_url @ ''image/'' @ file_name, Num 1)], s) \<and>
         dict_get (requests_cache
           (snd (find_image lib base_url request_id now url max_results max_similarity s)))
           request_id = None \<and>
         fst (save_image lib base_url request_id
           (snd (find_image lib base_url request_id now url max_results max_similarity s))) =
           HTTPException_404"
  using assms by (simp add: find_image_def json_results_def save_image_def Let_def)

theorem find_image_own_url_witness:
  "extract_name_extension ''http://h/image/a.jpg'' ''http://h/'' = Some ''a.jpg'' \<and>
   ''a.jpg'' \<in> fst ` set (IMAGES_DIR ((ex_state [])\<lparr>IMAGES_DIR := [(''a.jpg'', ())]\<rparr>)) \<and>
   dict_get (requests_cache ((ex_state [])\<lparr>IMAGES_DIR := [(''a.jpg'', ())]\<rparr>)) ''id1'' = None \<and>
   find_image ex_lib ''http://h/'' ''id1'' 0 ''http://h/image/a.jpg'' 5 None
       ((ex_state [])\<lparr>IMAGES_DIR := [(''a.jpg'', ())]\<rparr>) =
     (JSONResponse_results ''id1'' [(''http://h/image/a.jpg'', Num 1)],
      (ex_state [])\<lparr>IMAGES_DIR := [(''a.jpg'', ())]\<rparr>) \<and>
   fst (save_image ex_lib ''http://h/'' ''id1''
         (snd (find_image ex_lib ''http://h/'' ''id1'' 0 ''http://h/image/a.jpg'' 5 None
                 ((ex_state [])\<lparr>IMAGES_DIR := [(''a.jpg'', ())]\<rparr>)))) = HTTPException_404"
proof -
  let ?s = "(ex_state [])\<lparr>IMAGES_DIR := [(''a.jpg'', ())]\<rparr>"
  have a: "extract_name_extension ''http://h/image/a.jpg'' ''http://h/'' = Some ''a.jpg''"
    by (rule ex_own_url)
  have b: "''a.jpg'' \<in> fst ` set (IMAGES_DIR ?s)" by simp
  have c: "dict_get (requests_cache ?s) ''id1'' = None" by (simp add: ex_state_def dict_get_def)
  note th = find_image_own_url[OF a b c, of ex_lib 0 5 None]
  have f: "find_image ex_lib ''http://h/'' ''id1'' 0 ''http://h/image/a.jpg'' 5 None ?s =
      (JSONResponse_results ''id1'' [(''http://h/image/a.jpg'', Num 1)], ?s)"
    using th[THEN conjunct1] by simp
  have n: "fst (save_image ex_lib ''http://h/'' ''id1''
         (snd (find_image ex_lib ''http://h/'' ''id1'' 0 ''http://h/image/a.jpg'' 5 None ?s))) =
         HTTPException_404"
    using th[THEN conjunct2, THEN conjunct2] .
  show ?thesis
    using a b c f n by blast
qed

text \<open>
  C8. One step of \<open>update_images\<close> leaves the state unchanged when the index has as
  many entries as the images directory has image files; when the numbers differ and
  \<open>load_features\<close> returns, the index becomes the mapping it returned.
\<close>

theorem update_images_by_count:
  "(length (images s) = length (list_files (IMAGES_DIR s) image_extensions) \<longrightarrow>
      update_images lib s = Inr s) \<and>
   (length (images s) \<noteq> length (list_files (IMAGES_DIR s) image_extensions) \<longrightarrow>
      (\<forall>loaded cache_dir calls.
         load_features lib (IMAGES_DIR s) (CACHE_DIR s) (extract_features lib) True True =
           Inr (loaded, cache_dir, calls) \<longrightarrow>
         update_images lib s = Inr (s\<lparr>images := loaded, CACHE_DIR := cache_dir\<rparr>) \<and>
         (\<forall>s'. update_images lib s = Inr s' \<longrightarrow> images s' = loaded)))"
  by (simp add: update_images_def)

text \<open>
  In the first state of the witness the only image has been replaced by another one:
  the numbers agree and the index keeps the entry of the file that is gone. In the
  second state the index is empty, and the step loads the image and fills the cache
  directory.
\<close>

theorem update_images_by_count_witness:
  "update_images ex_lib ((ex_state [])\<lparr>IMAGES_DIR := [(''new.jpg'', ())], images := [(''old.jpg'', [2])]\<rparr>) =
     Inr ((ex_state [])\<lparr>IMAGES_DIR := [(''new.jpg'', ())], images := [(''old.jpg'', [2])]\<rparr>) \<and>
   update_images ex_lib ((ex_state [])\<lparr>IMAGES_DIR := [(''new.jpg'', ())]\<rparr>) =
     Inr ((ex_state [])\<lparr>IMAGES_DIR := [(''new.jpg'', ())], images := [(''new.jpg'', [1])],
            CACHE_DIR := Some [(''new.jpg.npy'', [1])]\<rparr>)"
proof -
  let ?s1 = "(ex_state [])\<lparr>IMAGES_DIR := [(''new.jpg'', ())], images := [(''old.jpg'', [2])]\<rparr>"
  let ?s2 = "(ex_state [])\<lparr>IMAGES_DIR := [(''new.jpg'', ())]\<rparr>"
  have l: "list_files [(''new.jpg'', ())] image_extensions = [''new.jpg'']"
    by (simp add: list_files_def image_extensions_def ex_suffix_jpg)
  have ld: "load_features ex_lib (IMAGES_DIR ?s2) (CACHE_DIR ?s2) (extract_features ex_lib) True True =
      Inr ([(''new.jpg'', [1])], Some [(''new.jpg.npy'', [1])], [''new.jpg''])"
  proof -
    have e: "list_files ([] :: ndarray directory) [''npy''] = []" by (simp add: list_files_def)
    show ?thesis
      by (simp add: load_features_def ex_state_def l e cached_files_def ex_lib_def
          dict_get_def dict_set_def np_save_def mkdir_def dir_files_def np_save_name_def
          endswith_def Let_def)
  qed
  have c1: "length (images ?s1) = length (list_files (IMAGES_DIR ?s1) image_extensions)"
    by (simp add: l)
  have c2: "length (images ?s2) \<noteq> length (list_files (IMAGES_DIR ?s2) image_extensions)"
    by (simp add: l ex_state_def)
  show ?thesis
    using update_images_by_count[of ?s1 ex_lib] update_images_by_count[of ?s2 ex_lib] c1 c2 ld
    by (simp add: ex_state_def)
qed


end
